theory Spec2Isabelle
  imports Main "HOL-Library.AList"
begin

section \<open>Strings and paths\<close>

text \<open>
  Paths are Python \<^verbatim>\<open>str\<close> values, modelled as \<^typ>\<open>string\<close>. The only character
  the program inspects is the separator \<^verbatim>\<open>/\<close>. \<^verbatim>\<open>s.strip("/")\<close> removes every leading
  and trailing separator; \<^verbatim>\<open>s.split("/")\<close> cuts at every separator and keeps empty
  pieces, so it never returns the empty list (\<^verbatim>\<open>"".split("/") == [""]\<close>).
\<close>

definition str_strip :: "char \<Rightarrow> string \<Rightarrow> string" where
  "str_strip c s = rev (dropWhile (\<lambda>x. x = c) (rev (dropWhile (\<lambda>x. x = c) s)))"

fun str_split :: "char \<Rightarrow> string \<Rightarrow> string list" where
  "str_split c [] = [[]]"
| "str_split c (x # xs) =
     (if x = c then [] # str_split c xs
      else (case str_split c xs of [] \<Rightarrow> [[x]] | y # ys \<Rightarrow> (x # y) # ys))"

text \<open>\<^verbatim>\<open>path.strip("/").split("/")\<close>, the first line of every path operation.\<close>

definition path_parts :: "string \<Rightarrow> string list" where
  "path_parts path = str_split CHR ''/'' (str_strip CHR ''/'' path)"

section \<open>Errors\<close>

text \<open>
  Every failure of the program is a \<^verbatim>\<open>ValueError\<close>; the raise sites differ by their
  message. One constructor per raise site, carrying the value the message interpolates:
  \<^item> \<open>CannotAddChildToFile\<close>: "Cannot add child to a file: ..." (\<^verbatim>\<open>add_child\<close>;
    the spec's InvalidOperation);
  \<^item> \<open>ChildAlreadyExists\<close>: "Child with name '...' already exists." (\<^verbatim>\<open>add_child\<close>;
    AlreadyExists);
  \<^item> \<open>ChildNotFound\<close>: "Child '...' not found." (\<^verbatim>\<open>remove_child\<close>; NotFound);
  \<^item> \<open>CannotCreateInsideFile\<close>: "Cannot create path inside a file: ..." (\<^verbatim>\<open>create\<close>;
    InvalidOperation);
  \<^item> \<open>PathConflict\<close>: "Path conflict: '...' already exists as a different type."
    (\<^verbatim>\<open>create\<close>; TypeConflict);
  \<^item> \<open>PathNotFound\<close>: "Path not found." (\<^verbatim>\<open>delete\<close>, \<^verbatim>\<open>set_permissions\<close>,
    \<^verbatim>\<open>get_permissions\<close>; NotFound);
  \<^item> \<open>NotADirectory\<close>: "Path is not a directory." (\<^verbatim>\<open>list_directory\<close>).
\<close>

datatype error =
    CannotAddChildToFile string
  | ChildAlreadyExists string
  | ChildNotFound string
  | CannotCreateInsideFile string
  | PathConflict string
  | PathNotFound
  | NotADirectory

section \<open>Nodes\<close>

text \<open>
  The dataclass \<^verbatim>\<open>FileSystemNode\<close>. Both dictionaries are association lists in
  insertion order, which is the order Python's \<^verbatim>\<open>dict\<close> iterates in: \<^verbatim>\<open>d[k] = v\<close> is
  \<^const>\<open>AList.update\<close> (in place for a present key, appended for a new one),
  \<^verbatim>\<open>del d[k]\<close> is \<^const>\<open>AList.delete\<close>, \<^verbatim>\<open>d.get(k)\<close> is \<^const>\<open>map_of\<close>.
\<close>

datatype FileSystemNode =
  FileSystemNode
    (name: string)
    (is_file: bool)
    (children: "(string \<times> FileSystemNode) list")
    (permissions: "(string \<times> string) list")

text \<open>Assignment to one field of a node object.\<close>

definition with_children :: "FileSystemNode \<Rightarrow> (string \<times> FileSystemNode) list \<Rightarrow> FileSystemNode" where
  "with_children self ch = FileSystemNode (name self) (is_file self) ch (permissions self)"

definition with_permissions :: "FileSystemNode \<Rightarrow> (string \<times> string) list \<Rightarrow> FileSystemNode" where
  "with_permissions self ps = FileSystemNode (name self) (is_file self) (children self) ps"

definition get_child :: "FileSystemNode \<Rightarrow> string \<Rightarrow> FileSystemNode option" where
  "get_child self child_name = map_of (children self) child_name"

definition add_child :: "FileSystemNode \<Rightarrow> FileSystemNode \<Rightarrow> error + FileSystemNode" where
  "add_child self child =
     (if is_file self then Inl (CannotAddChildToFile (name self))
      else if map_of (children self) (name child) \<noteq> None then Inl (ChildAlreadyExists (name child))
      else Inr (with_children self (AList.update (name child) child (children self))))"

definition remove_child :: "FileSystemNode \<Rightarrow> string \<Rightarrow> error + FileSystemNode" where
  "remove_child self child_name =
     (if children self = [] \<or> map_of (children self) child_name = None
      then Inl (ChildNotFound child_name)
      else Inr (with_children self (AList.delete child_name (children self))))"

definition node_set_permissions :: "FileSystemNode \<Rightarrow> string \<Rightarrow> string \<Rightarrow> FileSystemNode" where
  "node_set_permissions self user perm =
     with_permissions self (AList.update user perm (permissions self))"

definition node_get_permissions :: "FileSystemNode \<Rightarrow> string \<Rightarrow> string option" where
  "node_get_permissions self user = map_of (permissions self) user"

section \<open>The file system\<close>

record FileSystem =
  root :: FileSystemNode

text \<open>\<^verbatim>\<open>FileSystem.__init__\<close>.\<close>

definition FileSystem_init :: FileSystem where
  "FileSystem_init = \<lparr>root = FileSystemNode ''/'' False [] []\<rparr>"

text \<open>
  \<^verbatim>\<open>_traverse\<close>: the loop variable \<^verbatim>\<open>current\<close> is a node or \<^verbatim>\<open>None\<close>; a node object is
  always truthy, so \<^verbatim>\<open>not current\<close> holds exactly for \<^verbatim>\<open>None\<close>.
\<close>

fun traverse_from :: "FileSystemNode option \<Rightarrow> string list \<Rightarrow> FileSystemNode option" where
  "traverse_from current [] = current"
| "traverse_from current (part # path) =
     (case current of
        None \<Rightarrow> None
      | Some n \<Rightarrow> if is_file n then None else traverse_from (get_child n part) path)"

definition traverse :: "FileSystem \<Rightarrow> string list \<Rightarrow> FileSystemNode option" where
  "traverse fs path = traverse_from (Some (root fs)) path"

text \<open>
  The program mutates node objects in place. The tree has no sharing, so a mutation of the
  node reached from \<open>current\<close> along \<open>path\<close> is the tree in which that node is
  replaced; the child keeps its position in its parent's dictionary.
\<close>

definition store_child :: "FileSystemNode \<Rightarrow> string \<Rightarrow> FileSystemNode \<Rightarrow> FileSystemNode" where
  "store_child self part child = with_children self (AList.update part child (children self))"

fun replace_at :: "FileSystemNode \<Rightarrow> string list \<Rightarrow> FileSystemNode \<Rightarrow> FileSystemNode" where
  "replace_at current [] n = n"
| "replace_at current (part # path) n =
     (case get_child current part of
        None \<Rightarrow> current
      | Some c \<Rightarrow> store_child current part (replace_at c path n))"

text \<open>
  \<^verbatim>\<open>create\<close>. The loop descends one node per part; \<open>create_loop current parts\<close> is the
  rest of the loop from \<open>current\<close> on and returns \<open>current\<close> as the loop leaves it, also
  when it raises: what was inserted before a raise stays inserted. The part is the last
  one (\<^verbatim>\<open>i == len(parts) - 1\<close>) exactly when no part follows it. The test after the loop
  is the case of no parts left.
\<close>

fun create_loop :: "FileSystemNode \<Rightarrow> string list \<Rightarrow> bool \<Rightarrow> string \<Rightarrow> (error + unit) \<times> FileSystemNode" where
  "create_loop current [] isf path =
     (if is_file current \<noteq> isf then (Inl (PathConflict path), current) else (Inr (), current))"
| "create_loop current (part # parts) isf path =
     (if is_file current then (Inl (CannotCreateInsideFile (name current)), current)
      else (case get_child current part of
          Some child \<Rightarrow>
            (case create_loop child parts isf path of
               (r, child') \<Rightarrow> (r, store_child current part child'))
        | None \<Rightarrow>
            (let new_node = FileSystemNode part (if parts = [] then isf else False) [] [] in
             case add_child current new_node of
               Inl e \<Rightarrow> (Inl e, current)
             | Inr current' \<Rightarrow>
                 (case create_loop new_node parts isf path of
                    (r, child') \<Rightarrow> (r, store_child current' part child')))))"

definition create :: "FileSystem \<Rightarrow> string \<Rightarrow> bool \<Rightarrow> (error + unit) \<times> FileSystem" where
  "create fs path isf =
     (case create_loop (root fs) (path_parts path) isf path of
        (r, root') \<Rightarrow> (r, fs\<lparr>root := root'\<rparr>))"

text \<open>
  \<^verbatim>\<open>delete\<close>: \<^verbatim>\<open>parts[:-1]\<close> is \<^const>\<open>butlast\<close> and \<^verbatim>\<open>parts[-1]\<close> is \<^const>\<open>last\<close>;
  \<open>parts\<close> is never empty.
\<close>

definition delete :: "FileSystem \<Rightarrow> string \<Rightarrow> (error + unit) \<times> FileSystem" where
  "delete fs path =
     (let parts = path_parts path in
      case traverse fs (butlast parts) of
        None \<Rightarrow> (Inl PathNotFound, fs)
      | Some parent \<Rightarrow>
          (case remove_child parent (last parts) of
             Inl e \<Rightarrow> (Inl e, fs)
           | Inr parent' \<Rightarrow> (Inr (), fs\<lparr>root := replace_at (root fs) (butlast parts) parent'\<rparr>)))"

definition list_directory :: "FileSystem \<Rightarrow> string \<Rightarrow> error + string list" where
  "list_directory fs path =
     (case traverse fs (path_parts path) of
        None \<Rightarrow> Inl NotADirectory
      | Some node \<Rightarrow> if is_file node then Inl NotADirectory else Inr (map fst (children node)))"

text \<open>
  \<^verbatim>\<open>search\<close>: \<^verbatim>\<open>path or "/"\<close> is \<^verbatim>\<open>"/"\<close> for the empty path; the path handed to a child is
  \<^verbatim>\<open>f"{path}/{child_name}".strip("//")\<close>, and \<^verbatim>\<open>strip\<close> takes a set of characters, so
  \<^verbatim>\<open>strip("//")\<close> is \<^verbatim>\<open>strip("/")\<close>.
\<close>

fun search_node :: "string \<Rightarrow> FileSystemNode \<Rightarrow> string \<Rightarrow> string list"
  and search_children :: "string \<Rightarrow> (string \<times> FileSystemNode) list \<Rightarrow> string \<Rightarrow> string list" where
  "search_node nm (FileSystemNode n f ch ps) path =
     (if n = nm then [if path = [] then ''/'' else path] else []) @
     (if \<not> f then search_children nm ch path else [])"
| "search_children nm [] path = []"
| "search_children nm ((child_name, child_node) # rest) path =
     search_node nm child_node (str_strip CHR ''/'' (path @ ''/'' @ child_name)) @
     search_children nm rest path"

definition search :: "FileSystem \<Rightarrow> string \<Rightarrow> string list" where
  "search fs nm = search_node nm (root fs) []"

definition set_permissions :: "FileSystem \<Rightarrow> string \<Rightarrow> string \<Rightarrow> string \<Rightarrow> (error + unit) \<times> FileSystem" where
  "set_permissions fs path user perm =
     (let parts = path_parts path in
      case traverse fs parts of
        None \<Rightarrow> (Inl PathNotFound, fs)
      | Some node \<Rightarrow>
          (Inr (), fs\<lparr>root := replace_at (root fs) parts (node_set_permissions node user perm)\<rparr>))"

definition get_permissions :: "FileSystem \<Rightarrow> string \<Rightarrow> string \<Rightarrow> error + string option" where
  "get_permissions fs path user =
     (case traverse fs (path_parts path) of
        None \<Rightarrow> Inl PathNotFound
      | Some node \<Rightarrow> Inr (node_get_permissions node user))"

section \<open>Example trees\<close>

text \<open>The tree of the driver's first steps: \<^verbatim>\<open>create("dir/subdir")\<close>,
  \<^verbatim>\<open>create("dir/subdir/file1.txt", is_file=True)\<close>, \<^verbatim>\<open>create("dir/file3.txt", is_file=True)\<close>.\<close>

definition scenario_fs :: FileSystem where
  "scenario_fs =
     snd (create (snd (create (snd (create FileSystem_init ''dir/subdir'' False))
       ''dir/subdir/file1.txt'' True)) ''dir/file3.txt'' True)"

definition scenario_tree :: FileSystem where
  "scenario_tree =
     \<lparr>root = FileSystemNode ''/'' False
        [(''dir'', FileSystemNode ''dir'' False
            [(''subdir'', FileSystemNode ''subdir'' False
                [(''file1.txt'', FileSystemNode ''file1.txt'' True [] [])] []),
             (''file3.txt'', FileSystemNode ''file3.txt'' True [] [])] [])] []\<rparr>"

text \<open>The scenario tree after \<^verbatim>\<open>delete("dir/subdir")\<close>.\<close>

definition after_delete :: FileSystem where
  "after_delete =
     \<lparr>root = FileSystemNode ''/'' False
        [(''dir'', FileSystemNode ''dir'' False
            [(''file3.txt'', FileSystemNode ''file3.txt'' True [] [])] [])] []\<rparr>"

text \<open>The scenario tree after \<^verbatim>\<open>set_permissions("dir/subdir/file1.txt", "user1", "rwx")\<close>.\<close>

definition after_set_permissions :: FileSystem where
  "after_set_permissions =
     \<lparr>root = FileSystemNode ''/'' False
        [(''dir'', FileSystemNode ''dir'' False
            [(''subdir'', FileSystemNode ''subdir'' False
                [(''file1.txt'', FileSystemNode ''file1.txt'' True [] [(''user1'', ''rwx'')])] []),
             (''file3.txt'', FileSystemNode ''file3.txt'' True [] [])] [])] []\<rparr>"

section \<open>Properties of trees\<close>

text \<open>The invariant of the data model: a node that is a file has no children, at every
  depth.\<close>

fun files_are_leaves :: "FileSystemNode \<Rightarrow> bool"
  and files_are_leaves_list :: "(string \<times> FileSystemNode) list \<Rightarrow> bool" where
  "files_are_leaves (FileSystemNode n True ch ps) = (ch = [])"
| "files_are_leaves (FileSystemNode n False ch ps) = files_are_leaves_list ch"
| "files_are_leaves_list [] = True"
| "files_are_leaves_list ((k, c) # rest) = (files_are_leaves c \<and> files_are_leaves_list rest)"

text \<open>Every key in every children dictionary is a proper path segment: not empty and
  without a separator.\<close>

fun keys_ok :: "FileSystemNode \<Rightarrow> bool"
  and keys_ok_list :: "(string \<times> FileSystemNode) list \<Rightarrow> bool" where
  "keys_ok (FileSystemNode n f ch ps) = keys_ok_list ch"
| "keys_ok_list [] = True"
| "keys_ok_list ((k, c) # rest) =
     (k \<noteq> [] \<and> CHR ''/'' \<notin> set k \<and> keys_ok c \<and> keys_ok_list rest)"

text \<open>The nodes below a node in depth-first preorder, directories only being entered,
  each with the list of keys that leads to it from the root.\<close>

fun node_paths :: "string list \<Rightarrow> FileSystemNode \<Rightarrow> (string list \<times> FileSystemNode) list"
  and children_paths :: "string list \<Rightarrow> (string \<times> FileSystemNode) list \<Rightarrow> (string list \<times> FileSystemNode) list" where
  "node_paths segs (FileSystemNode n f ch ps) =
     (segs, FileSystemNode n f ch ps) # (if f then [] else children_paths segs ch)"
| "children_paths segs [] = []"
| "children_paths segs ((k, c) # rest) = node_paths (segs @ [k]) c @ children_paths segs rest"

text \<open>\<^verbatim>\<open>sep.join(segs)\<close>, and the way a key path is written: the root as \<^verbatim>\<open>/\<close>, any other
  node as its keys joined by \<^verbatim>\<open>/\<close>, with no leading separator.\<close>

fun str_join :: "string \<Rightarrow> string list \<Rightarrow> string" where
  "str_join sep [] = []"
| "str_join sep [x] = x"
| "str_join sep (x # y # ys) = x @ sep @ str_join sep (y # ys)"

definition show_path :: "string list \<Rightarrow> string" where
  "show_path segs = (if segs = [] then ''/'' else str_join ''/'' segs)"

text \<open>A path is valid for \<^verbatim>\<open>create\<close> with a given flag when, as far as its segments already
  exist, none of the nodes it passes through is a file, and, if all of it exists, the node
  it ends at has the requested flag.\<close>

fun path_valid :: "FileSystemNode \<Rightarrow> string list \<Rightarrow> bool \<Rightarrow> bool" where
  "path_valid current [] isf = (is_file current = isf)"
| "path_valid current (part # parts) isf =
     (\<not> is_file current \<and>
      (case get_child current part of
         None \<Rightarrow> True
       | Some child \<Rightarrow> path_valid child parts isf))"

section \<open>Basic facts about nodes and traversal\<close>

lemmas eval_defs =
  create_def delete_def list_directory_def search_def set_permissions_def get_permissions_def
  FileSystem_init_def traverse_def path_parts_def str_strip_def get_child_def add_child_def
  remove_child_def with_children_def with_permissions_def store_child_def
  node_set_permissions_def node_get_permissions_def

lemma with_children_sel [simp]:
  "name (with_children c ch) = name c" "is_file (with_children c ch) = is_file c"
  "children (with_children c ch) = ch" "permissions (with_children c ch) = permissions c"
  by (simp_all add: with_children_def)

lemma store_child_sel [simp]:
  "name (store_child c k v) = name c" "is_file (store_child c k v) = is_file c"
  "permissions (store_child c k v) = permissions c"
  "children (store_child c k v) = AList.update k v (children c)"
  by (simp_all add: store_child_def)

lemma get_child_store_child [simp]:
  "get_child (store_child c k v) j = (if j = k then Some v else get_child c j)"
  by (simp add: get_child_def update_conv')

lemma store_child_same: "get_child c k = Some v \<Longrightarrow> store_child c k v = c"
  by (cases c) (simp add: store_child_def with_children_def get_child_def update_triv)

lemma store_child_twice [simp]:
  "store_child (with_children c (AList.update k v (children c))) k w = store_child c k w"
  by (simp add: store_child_def with_children_def)

lemma traverse_from_None [simp]: "traverse_from None path = None"
  by (cases path) simp_all

lemma traverse_from_append:
  "traverse_from cur (xs @ ys) = traverse_from (traverse_from cur xs) ys"
  by (induction xs arbitrary: cur) (auto split: option.splits)

lemma traverse_from_prefix_dir:
  assumes "traverse_from cur (xs @ y # ys) = Some n"
  shows "\<exists>d. traverse_from cur xs = Some d \<and> \<not> is_file d"
proof (cases "traverse_from cur xs")
  case None
  with assms show ?thesis by (simp add: traverse_from_append)
next
  case (Some d)
  with assms show ?thesis by (simp add: traverse_from_append split: if_splits)
qed

section \<open>The loop of create\<close>

lemma add_child_fresh:
  "\<not> is_file c \<Longrightarrow> get_child c k = None \<Longrightarrow>
   add_child c (FileSystemNode k f [] []) =
     Inr (with_children c (AList.update k (FileSystemNode k f [] []) (children c)))"
  by (simp add: add_child_def get_child_def)

lemma create_loop_Cons_None:
  "\<not> is_file c \<Longrightarrow> get_child c q = None \<Longrightarrow>
   create_loop c (q # qs) isf path =
     (case create_loop (FileSystemNode q (if qs = [] then isf else False) [] []) qs isf path of
        (r, child') \<Rightarrow> (r, store_child c q child'))"
  by (simp add: add_child_fresh Let_def del: store_child_sel)

lemma create_loop_Cons_Some:
  "\<not> is_file c \<Longrightarrow> get_child c q = Some child \<Longrightarrow>
   create_loop c (q # qs) isf path =
     (case create_loop child qs isf path of (r, child') \<Rightarrow> (r, store_child c q child'))"
  by simp

text \<open>A node the loop has just made is a directory unless it is the last one, so the
  rest of the loop below it only inserts, and the final test compares the flag with itself.\<close>

lemma create_loop_new_ok:
  "fst (create_loop (FileSystemNode k (if parts = [] then isf else False) [] []) parts isf path) = Inr ()"
proof (induction parts arbitrary: k)
  case Nil
  show ?case by simp
next
  case (Cons q qs)
  let ?new = "FileSystemNode q (if qs = [] then isf else False) [] []"
  obtain r ch where rc: "create_loop ?new qs isf path = (r, ch)"
    by (cases "create_loop ?new qs isf path")
  with Cons.IH [of q] have r: "r = Inr ()" by simp
  have "create_loop (FileSystemNode k False [] []) (q # qs) isf path =
        (case create_loop ?new qs isf path of (r, child') \<Rightarrow>
           (r, store_child (FileSystemNode k False [] []) q child'))"
    by (rule create_loop_Cons_None) (simp_all add: get_child_def)
  with rc r show ?case by (simp del: create_loop.simps)
qed

lemma create_loop_fail_unchanged:
  "create_loop c parts isf path = (Inl e, c') \<Longrightarrow> c' = c"
proof (induction parts arbitrary: c c')
  case Nil
  then show ?case by (simp split: if_splits)
next
  case (Cons q qs)
  show ?case
  proof (cases "is_file c")
    case True
    with Cons.prems show ?thesis by simp
  next
    case nf: False
    show ?thesis
    proof (cases "get_child c q")
      case (Some child)
      obtain r child' where rc: "create_loop child qs isf path = (r, child')"
        by (cases "create_loop child qs isf path")
      with Cons.prems nf Some have "r = Inl e" and c': "c' = store_child c q child'"
        by (simp_all add: create_loop_Cons_Some del: create_loop.simps)
      with rc Cons.IH have "child' = child" by blast
      with c' Some show ?thesis by (simp add: store_child_same)
    next
      case None
      let ?new = "FileSystemNode q (if qs = [] then isf else False) [] []"
      obtain r child' where rc: "create_loop ?new qs isf path = (r, child')"
        by (cases "create_loop ?new qs isf path")
      with Cons.prems nf None have "r = Inl e"
        by (simp add: create_loop_Cons_None del: create_loop.simps)
      moreover from rc create_loop_new_ok [of q qs isf path] have "r = Inr ()" by simp
      ultimately show ?thesis by simp
    qed
  qed
qed

lemma create_loop_resolves:
  "create_loop c parts isf path = (Inr (), c') \<Longrightarrow>
   \<exists>n. traverse_from (Some c') parts = Some n \<and> is_file n = isf"
proof (induction parts arbitrary: c c')
  case Nil
  then show ?case by (simp split: if_splits)
next
  case (Cons q qs)
  show ?case
  proof (cases "is_file c")
    case True
    with Cons.prems show ?thesis by simp
  next
    case nf: False
    have step: "\<exists>n. traverse_from (Some c') (q # qs) = Some n \<and> is_file n = isf"
      if rc: "create_loop child qs isf path = (Inr (), child')"
        and c': "c' = store_child c q child'" for child child'
    proof -
      from rc Cons.IH obtain n where "traverse_from (Some child') qs = Some n" "is_file n = isf"
        by blast
      with c' nf show ?thesis by simp
    qed
    show ?thesis
    proof (cases "get_child c q")
      case (Some child)
      obtain r child' where rc: "create_loop child qs isf path = (r, child')"
        by (cases "create_loop child qs isf path")
      with Cons.prems nf Some have "r = Inr ()" "c' = store_child c q child'"
        by (simp_all add: create_loop_Cons_Some del: create_loop.simps)
      with rc step show ?thesis by blast
    next
      case None
      let ?new = "FileSystemNode q (if qs = [] then isf else False) [] []"
      obtain r child' where rc: "create_loop ?new qs isf path = (r, child')"
        by (cases "create_loop ?new qs isf path")
      with Cons.prems nf None have "r = Inr ()" "c' = store_child c q child'"
        by (simp_all add: create_loop_Cons_None del: create_loop.simps)
      with rc step show ?thesis by blast
    qed
  qed
qed

text \<open>On a path that already resolves the loop inserts nothing and only the final test
  decides.\<close>

lemma create_loop_existing:
  "traverse_from (Some c) parts = Some n \<Longrightarrow>
   create_loop c parts isf path =
     (if is_file n \<noteq> isf then Inl (PathConflict path) else Inr (), c)"
proof (induction parts arbitrary: c)
  case Nil
  then show ?case by simp
next
  case (Cons q qs)
  from Cons.prems have nf: "\<not> is_file c" by (simp split: if_splits)
  with Cons.prems obtain child where ch: "get_child c q = Some child"
    and tr: "traverse_from (Some child) qs = Some n"
    by (cases "get_child c q") simp_all
  from Cons.IH [OF tr] nf ch show ?case by (simp add: store_child_same)
qed

lemma create_existing:
  assumes "traverse fs (path_parts p) = Some n"
  shows "create fs p isf = (if is_file n \<noteq> isf then Inl (PathConflict p) else Inr (), fs)"
  using create_loop_existing [of "root fs" "path_parts p" n isf p] assms
  by (simp add: create_def traverse_def)

lemma create_resolves:
  assumes "create fs p isf = (Inr (), fs')"
  shows "\<exists>n. traverse fs' (path_parts p) = Some n \<and> is_file n = isf"
proof -
  obtain r root' where rc: "create_loop (root fs) (path_parts p) isf p = (r, root')"
    by (cases "create_loop (root fs) (path_parts p) isf p")
  with assms have "r = Inr ()" "fs' = fs\<lparr>root := root'\<rparr>"
    by (simp_all add: create_def)
  with rc create_loop_resolves [of "root fs" "path_parts p" isf p root'] show ?thesis
    by (simp add: traverse_def)
qed

text \<open>The loop returns normally exactly on the valid paths.\<close>

lemma create_loop_ok_iff:
  "fst (create_loop c parts isf path) = Inr () \<longleftrightarrow> path_valid c parts isf"
proof (induction parts arbitrary: c)
  case Nil
  show ?case by auto
next
  case (Cons q qs)
  show ?case
  proof (cases "is_file c")
    case True
    then show ?thesis by simp
  next
    case nf: False
    show ?thesis
    proof (cases "get_child c q")
      case (Some child)
      obtain r child' where rc: "create_loop child qs isf path = (r, child')"
        by (cases "create_loop child qs isf path")
      with Cons.IH [of child] have "r = Inr () \<longleftrightarrow> path_valid child qs isf" by simp
      with nf Some rc show ?thesis
        by (simp add: create_loop_Cons_Some del: create_loop.simps)
    next
      case None
      let ?new = "FileSystemNode q (if qs = [] then isf else False) [] []"
      obtain r child' where rc: "create_loop ?new qs isf path = (r, child')"
        by (cases "create_loop ?new qs isf path")
      with create_loop_new_ok [of q qs isf path] have "r = Inr ()" by simp
      with nf None rc show ?thesis
        by (simp add: create_loop_Cons_None del: create_loop.simps)
    qed
  qed
qed

lemma create_ok_iff:
  "fst (create fs p isf) = Inr () \<longleftrightarrow> path_valid (root fs) (path_parts p) isf"
proof -
  obtain r root' where rc: "create_loop (root fs) (path_parts p) isf p = (r, root')"
    by (cases "create_loop (root fs) (path_parts p) isf p")
  with create_loop_ok_iff [of "root fs" "path_parts p" isf p] show ?thesis
    by (simp add: create_def)
qed

section \<open>Deletion\<close>

lemma str_split_nonempty [simp]: "str_split c s \<noteq> []"
  by (induction s) (auto split: list.splits)

lemma path_parts_nonempty [simp]: "path_parts p \<noteq> []"
  by (simp add: path_parts_def)

lemma traverse_replace_at:
  "traverse_from (Some c) path = Some n \<Longrightarrow>
   traverse_from (Some (replace_at c path n')) path = Some n'"
proof (induction path arbitrary: c)
  case Nil
  show ?case by simp
next
  case (Cons q qs)
  from Cons.prems have nf: "\<not> is_file c" by (simp split: if_splits)
  with Cons.prems obtain d where d: "get_child c q = Some d"
    and tr: "traverse_from (Some d) qs = Some n"
    by (cases "get_child c q") simp_all
  from Cons.IH [OF tr] nf d show ?case by simp
qed

lemma remove_child_present:
  "get_child parent k = Some c \<Longrightarrow>
   remove_child parent k = Inr (with_children parent (AList.delete k (children parent)))"
  by (auto simp: remove_child_def get_child_def)

lemma remove_child_absent:
  "get_child parent k = None \<Longrightarrow> remove_child parent k = Inl (ChildNotFound k)"
  by (simp add: remove_child_def get_child_def)

lemma get_child_deleted [simp]:
  "get_child (with_children parent (AList.delete k (children parent))) k = None"
  by (simp add: get_child_def delete_conv')

lemma scenario_fs_eq: "scenario_fs = scenario_tree"
  by (simp add: scenario_fs_def scenario_tree_def eval_defs)

section \<open>The root path\<close>

text \<open>
  C2. \<^verbatim>\<open>list_directory\<close> called with the root path \<^verbatim>\<open>"/"\<close> (its default argument) or
  with the empty path should list the root. In the program both paths strip to the empty
  string, which splits into the single part \<^verbatim>\<open>""\<close>; the traversal then looks for a child
  of the root with the empty name, finds none in a new file system, and the call raises
  "Path is not a directory.".
\<close>

theorem list_directory_root_path_fails:
  "list_directory FileSystem_init ''/'' = Inl NotADirectory \<and>
   list_directory FileSystem_init '''' = Inl NotADirectory"
  by (simp add: list_directory_def FileSystem_init_def traverse_def path_parts_def
      str_strip_def get_child_def)

text \<open>
  C3. \<^verbatim>\<open>create\<close> called with the empty path or the root path should leave the root's
  children alone. In the program the single empty part is looked up in the root, is not
  found, and a node with the empty name is inserted under the root (a directory or a
  file, as requested).
\<close>

theorem create_root_path_inserts_empty_name:
  "create FileSystem_init '''' False =
     (Inr (), \<lparr>root = FileSystemNode ''/'' False [('''', FileSystemNode '''' False [] [])] []\<rparr>) \<and>
   create FileSystem_init ''/'' True =
     (Inr (), \<lparr>root = FileSystemNode ''/'' False [('''', FileSystemNode '''' True [] [])] []\<rparr>)"
  by (simp add: create_def FileSystem_init_def path_parts_def str_strip_def get_child_def
      add_child_def with_children_def store_child_def)

section \<open>Creation\<close>

text \<open>
  C4. On every valid path \<open>p\<close> (as far as \<open>p\<close> already exists it does not run through a
  file, and if all of it exists it ends at a node of the requested kind; the path may be
  new in part or in whole) \<^verbatim>\<open>create(p, is_file=X)\<close> returns normally, and these are the only
  paths on which it does. When it has returned normally, traversing \<open>p\<close> in the resulting
  tree resolves to a node whose \<open>is_file\<close> flag is \<open>X\<close>, and every proper prefix of \<open>p\<close>
  (the intermediate segments, and the root) resolves to a directory.
\<close>

theorem create_then_traverse:
  "(path_valid (root fs) (path_parts p) X \<longrightarrow>
      (\<exists>fs1. create fs p X = (Inr (), fs1) \<and>
         (\<exists>n. traverse fs1 (path_parts p) = Some n \<and> is_file n = X) \<and>
         (\<forall>k < length (path_parts p).
            \<exists>d. traverse fs1 (take k (path_parts p)) = Some d \<and> \<not> is_file d))) \<and>
   (create fs p X = (Inr (), fs') \<longrightarrow>
      path_valid (root fs) (path_parts p) X \<and>
      (\<exists>n. traverse fs' (path_parts p) = Some n \<and> is_file n = X) \<and>
      (\<forall>k < length (path_parts p).
         \<exists>d. traverse fs' (take k (path_parts p)) = Some d \<and> \<not> is_file d))"
proof -
  have after: "(\<exists>n. traverse fs2 (path_parts p) = Some n \<and> is_file n = X) \<and>
      (\<forall>k < length (path_parts p).
         \<exists>d. traverse fs2 (take k (path_parts p)) = Some d \<and> \<not> is_file d)"
    if ok: "create fs p X = (Inr (), fs2)" for fs2
  proof -
    from create_resolves [OF ok] obtain n
      where n: "traverse fs2 (path_parts p) = Some n" "is_file n = X" by blast
    have "\<exists>d. traverse fs2 (take k (path_parts p)) = Some d \<and> \<not> is_file d"
      if k: "k < length (path_parts p)" for k
    proof -
      from k have "path_parts p = take k (path_parts p) @ path_parts p ! k # drop (Suc k) (path_parts p)"
        by (simp add: id_take_nth_drop)
      with n(1) have "traverse_from (Some (root fs2))
          (take k (path_parts p) @ path_parts p ! k # drop (Suc k) (path_parts p)) = Some n"
        by (simp add: traverse_def)
      from traverse_from_prefix_dir [OF this] show ?thesis by (simp add: traverse_def)
    qed
    with n show ?thesis by blast
  qed
  show ?thesis
  proof (intro conjI impI)
    assume "path_valid (root fs) (path_parts p) X"
    then have "fst (create fs p X) = Inr ()" by (simp add: create_ok_iff)
    then obtain fs1 where ok: "create fs p X = (Inr (), fs1)"
      by (cases "create fs p X") simp
    with after [OF ok] show "\<exists>fs1. create fs p X = (Inr (), fs1) \<and>
         (\<exists>n. traverse fs1 (path_parts p) = Some n \<and> is_file n = X) \<and>
         (\<forall>k < length (path_parts p).
            \<exists>d. traverse fs1 (take k (path_parts p)) = Some d \<and> \<not> is_file d)"
      by blast
  next
    assume ok: "create fs p X = (Inr (), fs')"
    then have "fst (create fs p X) = Inr ()" by simp
    then show "path_valid (root fs) (path_parts p) X" by (simp add: create_ok_iff)
    from after [OF ok] show "\<exists>n. traverse fs' (path_parts p) = Some n \<and> is_file n = X"
      and "\<forall>k < length (path_parts p).
         \<exists>d. traverse fs' (take k (path_parts p)) = Some d \<and> \<not> is_file d"
      by blast+
  qed
qed

theorem create_then_traverse_witness:
  "path_valid (root scenario_tree) (path_parts ''dir/new/file.txt'') True \<and>
   traverse scenario_tree (path_parts ''dir/new/file.txt'') = None \<and>
   create scenario_tree ''dir/new/file.txt'' True =
     (Inr (), \<lparr>root = FileSystemNode ''/'' False
        [(''dir'', FileSystemNode ''dir'' False
            [(''subdir'', FileSystemNode ''subdir'' False
                [(''file1.txt'', FileSystemNode ''file1.txt'' True [] [])] []),
             (''file3.txt'', FileSystemNode ''file3.txt'' True [] []),
             (''new'', FileSystemNode ''new'' False
                [(''file.txt'', FileSystemNode ''file.txt'' True [] [])] [])] [])] []\<rparr>) \<and>
   (\<exists>n. traverse (snd (create scenario_tree ''dir/new/file.txt'' True))
           (path_parts ''dir/new/file.txt'') = Some n \<and> is_file n = True) \<and>
   (\<exists>d. traverse (snd (create scenario_tree ''dir/new/file.txt'' True))
           (take 2 (path_parts ''dir/new/file.txt'')) = Some d \<and> \<not> is_file d)"
proof -
  have v: "path_valid (root scenario_tree) (path_parts ''dir/new/file.txt'') True"
    by (simp add: scenario_tree_def path_parts_def str_strip_def get_child_def)
  have t: "traverse scenario_tree (path_parts ''dir/new/file.txt'') = None"
    by (simp add: scenario_tree_def eval_defs)
  have h: "create scenario_tree ''dir/new/file.txt'' True =
     (Inr (), \<lparr>root = FileSystemNode ''/'' False
        [(''dir'', FileSystemNode ''dir'' False
            [(''subdir'', FileSystemNode ''subdir'' False
                [(''file1.txt'', FileSystemNode ''file1.txt'' True [] [])] []),
             (''file3.txt'', FileSystemNode ''file3.txt'' True [] []),
             (''new'', FileSystemNode ''new'' False
                [(''file.txt'', FileSystemNode ''file.txt'' True [] [])] [])] [])] []\<rparr>)"
    by (simp add: scenario_tree_def eval_defs)
  have len: "(2::nat) < length (path_parts ''dir/new/file.txt'')"
    by (simp add: path_parts_def str_strip_def)
  from create_then_traverse [of scenario_tree "''dir/new/file.txt''" True] v
  obtain fs1 where ok: "create scenario_tree ''dir/new/file.txt'' True = (Inr (), fs1)"
    and n: "\<exists>n. traverse fs1 (path_parts ''dir/new/file.txt'') = Some n \<and> is_file n = True"
    and d: "\<forall>k < length (path_parts ''dir/new/file.txt'').
            \<exists>d. traverse fs1 (take k (path_parts ''dir/new/file.txt'')) = Some d \<and> \<not> is_file d"
    by blast
  from d len have "\<exists>d. traverse fs1 (take 2 (path_parts ''dir/new/file.txt'')) = Some d \<and> \<not> is_file d"
    by blast
  with ok n have "(\<exists>n. traverse (snd (create scenario_tree ''dir/new/file.txt'' True))
           (path_parts ''dir/new/file.txt'') = Some n \<and> is_file n = True) \<and>
   (\<exists>d. traverse (snd (create scenario_tree ''dir/new/file.txt'' True))
           (take 2 (path_parts ''dir/new/file.txt'')) = Some d \<and> \<not> is_file d)"
    by simp
  with v t h show ?thesis by blast
qed

text \<open>
  C5. \<^verbatim>\<open>create\<close> is idempotent on directory paths: when \<^verbatim>\<open>create(p)\<close> has returned
  normally, a second \<^verbatim>\<open>create(p)\<close> returns normally too and leaves the tree exactly as the
  first call left it.
\<close>

theorem create_directory_idempotent:
  assumes "create fs p False = (Inr (), fs')"
  shows "create fs' p False = (Inr (), fs')"
proof -
  from create_resolves [OF assms] obtain n
    where "traverse fs' (path_parts p) = Some n" "\<not> is_file n" by blast
  then show ?thesis by (simp add: create_existing)
qed

theorem create_directory_idempotent_witness:
  "create FileSystem_init ''a/b'' False =
     (Inr (), \<lparr>root = FileSystemNode ''/'' False
        [(''a'', FileSystemNode ''a'' False [(''b'', FileSystemNode ''b'' False [] [])] [])] []\<rparr>) \<and>
   create \<lparr>root = FileSystemNode ''/'' False
        [(''a'', FileSystemNode ''a'' False [(''b'', FileSystemNode ''b'' False [] [])] [])] []\<rparr>
      ''a/b'' False =
     (Inr (), \<lparr>root = FileSystemNode ''/'' False
        [(''a'', FileSystemNode ''a'' False [(''b'', FileSystemNode ''b'' False [] [])] [])] []\<rparr>)"
proof -
  have h: "create FileSystem_init ''a/b'' False =
     (Inr (), \<lparr>root = FileSystemNode ''/'' False
        [(''a'', FileSystemNode ''a'' False [(''b'', FileSystemNode ''b'' False [] [])] [])] []\<rparr>)"
    by (simp add: eval_defs)
  from create_directory_idempotent [OF h] h show ?thesis by (rule_tac conjI)
qed

text \<open>
  C6. Where a file has been created with \<^verbatim>\<open>create(p, is_file=True)\<close>, the same call again
  returns normally and changes nothing, and \<^verbatim>\<open>create(p, is_file=False)\<close> raises the path
  conflict error; where \<open>p\<close> resolves to a directory, \<^verbatim>\<open>create(p, is_file=True)\<close> raises the
  path conflict error. The tree is unchanged in each case.
\<close>

theorem create_type_conflict:
  "(create fs0 p True = (Inr (), fs) \<longrightarrow>
      create fs p True = (Inr (), fs) \<and> create fs p False = (Inl (PathConflict p), fs)) \<and>
   (traverse fs (path_parts p) = Some d \<and> \<not> is_file d \<longrightarrow>
      create fs p True = (Inl (PathConflict p), fs))"
proof (intro conjI impI)
  assume "create fs0 p True = (Inr (), fs)"
  from create_resolves [OF this] obtain n
    where n: "traverse fs (path_parts p) = Some n" "is_file n" by blast
  then show "create fs p True = (Inr (), fs)" by (simp add: create_existing)
  from n show "create fs p False = (Inl (PathConflict p), fs)" by (simp add: create_existing)
next
  assume "traverse fs (path_parts p) = Some d \<and> \<not> is_file d"
  then show "create fs p True = (Inl (PathConflict p), fs)" by (simp add: create_existing)
qed

theorem create_type_conflict_witness:
  "create scenario_tree ''dir/file3.txt'' True = (Inr (), scenario_tree) \<and>
   create scenario_tree ''dir/file3.txt'' False = (Inl (PathConflict ''dir/file3.txt''), scenario_tree) \<and>
   traverse scenario_tree (path_parts ''dir/subdir'') =
     Some (FileSystemNode ''subdir'' False [(''file1.txt'', FileSystemNode ''file1.txt'' True [] [])] []) \<and>
   create scenario_tree ''dir/subdir'' True = (Inl (PathConflict ''dir/subdir''), scenario_tree)"
proof -
  have h1: "create scenario_tree ''dir/file3.txt'' True = (Inr (), scenario_tree)"
    by (simp add: scenario_tree_def eval_defs)
  have h2: "traverse scenario_tree (path_parts ''dir/subdir'') =
     Some (FileSystemNode ''subdir'' False [(''file1.txt'', FileSystemNode ''file1.txt'' True [] [])] [])"
    by (simp add: scenario_tree_def eval_defs)
  from create_type_conflict [of scenario_tree "''dir/file3.txt''" scenario_tree] h1
  have "create scenario_tree ''dir/file3.txt'' False =
        (Inl (PathConflict ''dir/file3.txt''), scenario_tree)" by blast
  moreover from create_type_conflict [where p = "''dir/subdir''" and fs = scenario_tree
      and d = "FileSystemNode ''subdir'' False [(''file1.txt'', FileSystemNode ''file1.txt'' True [] [])] []"] h2
  have "create scenario_tree ''dir/subdir'' True = (Inl (PathConflict ''dir/subdir''), scenario_tree)"
    by simp
  ultimately show ?thesis using h1 h2 by simp
qed

text \<open>
  C7. The claim is that a failing \<^verbatim>\<open>create\<close> can leave nodes it has inserted behind. The
  loop has no rollback, but it can only raise while it still walks nodes that existed
  before the call: below a node it has inserted everything is new, the new intermediate
  nodes are directories, and the new last node has the requested flag. So no call of
  \<^verbatim>\<open>create\<close> both raises and changes the tree.
\<close>

theorem create_partial_state_counterexample:
  "\<not> (\<exists>fs p X e fs'. create fs p X = (Inl e, fs') \<and> fs' \<noteq> fs)"
proof
  assume "\<exists>fs p X e fs'. create fs p X = (Inl e, fs') \<and> fs' \<noteq> fs"
  then obtain fs p X e fs' where c: "create fs p X = (Inl e, fs')" and ne: "fs' \<noteq> fs"
    by blast
  obtain r root' where rc: "create_loop (root fs) (path_parts p) X p = (r, root')"
    by (cases "create_loop (root fs) (path_parts p) X p")
  with c have "r = Inl e" and fs': "fs' = fs\<lparr>root := root'\<rparr>" by (simp_all add: create_def)
  with rc have "root' = root fs" by (auto dest: create_loop_fail_unchanged)
  with fs' ne show False by simp
qed

text \<open>
  C7, as the program has it: whenever \<^verbatim>\<open>create\<close> raises (the path conflict at the last
  segment, or "cannot create inside a file" on the way), the tree is exactly the tree
  before the call.
\<close>

theorem create_failure_leaves_tree:
  assumes "create fs p X = (Inl e, fs')"
  shows "fs' = fs"
proof -
  obtain r root' where rc: "create_loop (root fs) (path_parts p) X p = (r, root')"
    by (cases "create_loop (root fs) (path_parts p) X p")
  with assms have "r = Inl e" and fs': "fs' = fs\<lparr>root := root'\<rparr>" by (simp_all add: create_def)
  with rc have "root' = root fs" by (auto dest: create_loop_fail_unchanged)
  with fs' show ?thesis by simp
qed

theorem create_failure_leaves_tree_witness:
  "create scenario_tree ''dir/file3.txt/x/y'' False =
     (Inl (CannotCreateInsideFile ''file3.txt''), scenario_tree) \<and>
   snd (create scenario_tree ''dir/file3.txt/x/y'' False) = scenario_tree"
proof -
  have h: "create scenario_tree ''dir/file3.txt/x/y'' False =
     (Inl (CannotCreateInsideFile ''file3.txt''), scenario_tree)"
    by (simp add: scenario_tree_def eval_defs)
  from create_failure_leaves_tree [OF h] h show ?thesis by simp
qed


section \<open>Removal\<close>

text \<open>
  C8. After \<^verbatim>\<open>delete(p)\<close>, \<^verbatim>\<open>list_directory\<close> of the parent of \<open>p\<close> should list the
  parent's children without the last segment of \<open>p\<close>. For a path of one segment the
  parent is the root. In the program \<^verbatim>\<open>delete("dir")\<close> returns normally and removes the
  entry from the root, but \<^verbatim>\<open>list_directory\<close> of the root path \<^verbatim>\<open>"/"\<close> (its default
  argument) or of the empty path then raises "Path is not a directory." where it should
  return the one remaining name: the root path splits into the single empty part, which
  is looked up as a child of the root.
\<close>

theorem delete_then_list_root_fails:
  "delete \<lparr>root = FileSystemNode ''/'' False
       [(''dir'', FileSystemNode ''dir'' False [(''f'', FileSystemNode ''f'' True [] [])] []),
        (''tmp'', FileSystemNode ''tmp'' False [] [])] []\<rparr> ''dir'' =
     (Inr (), \<lparr>root = FileSystemNode ''/'' False [(''tmp'', FileSystemNode ''tmp'' False [] [])] []\<rparr>) \<and>
   list_directory \<lparr>root = FileSystemNode ''/'' False [(''tmp'', FileSystemNode ''tmp'' False [] [])] []\<rparr>
     ''/'' = Inl NotADirectory \<and>
   list_directory \<lparr>root = FileSystemNode ''/'' False [(''tmp'', FileSystemNode ''tmp'' False [] [])] []\<rparr>
     '''' = Inl NotADirectory"
  by (simp add: eval_defs)

text \<open>
  Apart from the listing of the root, removal behaves as follows. Where \<open>p\<close> resolves,
  \<^verbatim>\<open>delete(p)\<close> returns normally; afterwards the parent of \<open>p\<close> still resolves to a
  directory whose children no longer have the last segment of \<open>p\<close> as a key, and
  \<^verbatim>\<open>list_directory\<close> of a path that denotes the parent (there is one only when the parent
  is not the root) does not list it; nothing at or below \<open>p\<close> resolves any more; and a
  second \<^verbatim>\<open>delete(p)\<close> raises "Child ... not found." and changes nothing. Where the parent
  of \<open>p\<close> does not resolve, \<^verbatim>\<open>delete(p)\<close> raises "Path not found." and changes nothing.
\<close>

theorem delete_removes:
  "(traverse fs (path_parts p) = Some c \<longrightarrow>
      (\<exists>fs'. delete fs p = (Inr (), fs') \<and>
         (\<exists>parent'. traverse fs' (butlast (path_parts p)) = Some parent' \<and> \<not> is_file parent' \<and>
            last (path_parts p) \<notin> set (map fst (children parent'))) \<and>
         (\<forall>q. path_parts q = butlast (path_parts p) \<longrightarrow>
            (\<exists>names. list_directory fs' q = Inr names \<and> last (path_parts p) \<notin> set names)) \<and>
         (\<forall>rest. traverse fs' (path_parts p @ rest) = None) \<and>
         delete fs' p = (Inl (ChildNotFound (last (path_parts p))), fs'))) \<and>
   (traverse fs (butlast (path_parts p)) = None \<longrightarrow> delete fs p = (Inl PathNotFound, fs))"
proof (intro conjI impI)
  assume "traverse fs (butlast (path_parts p)) = None"
  then show "delete fs p = (Inl PathNotFound, fs)" by (simp add: delete_def Let_def)
next
  let ?bl = "butlast (path_parts p)" and ?k = "last (path_parts p)"
  assume res: "traverse fs (path_parts p) = Some c"
  have parts: "path_parts p = ?bl @ [?k]" by simp
  from res have "traverse_from (traverse_from (Some (root fs)) ?bl) [?k] = Some c"
    by (subst (asm) parts) (simp only: traverse_def traverse_from_append)
  then obtain parent where par: "traverse_from (Some (root fs)) ?bl = Some parent"
    and nf: "\<not> is_file parent" and ch: "get_child parent ?k = Some c"
    by (cases "traverse_from (Some (root fs)) ?bl") (simp_all split: if_splits)
  define parent' where "parent' = with_children parent (AList.delete ?k (children parent))"
  define fs' where "fs' = fs\<lparr>root := replace_at (root fs) ?bl parent'\<rparr>"
  from par ch have del: "delete fs p = (Inr (), fs')"
    by (simp add: delete_def Let_def traverse_def remove_child_present parent'_def fs'_def)
  from traverse_replace_at [OF par] have par': "traverse fs' ?bl = Some parent'"
    by (simp add: traverse_def fs'_def)
  have nf': "\<not> is_file parent'" using nf by (simp add: parent'_def)
  have absent: "?k \<notin> set (map fst (children parent'))"
    using delete_notin_dom [of ?k "children parent"] by (simp add: parent'_def)
  have gone: "get_child parent' ?k = None" by (simp add: parent'_def)
  have listing: "\<exists>names. list_directory fs' q = Inr names \<and> ?k \<notin> set names"
    if "path_parts q = ?bl" for q
    using that par' nf' absent by (simp add: list_directory_def)
  have subtree: "traverse fs' (path_parts p @ rest) = None" for rest
  proof -
    have "traverse fs' (path_parts p @ rest) =
          traverse_from (traverse_from (traverse_from (Some (root fs')) ?bl) [?k]) rest"
      by (subst parts) (simp only: traverse_def traverse_from_append)
    with par' nf' gone show ?thesis by (simp add: traverse_def)
  qed
  from par' gone have again: "delete fs' p = (Inl (ChildNotFound ?k), fs')"
    by (simp add: delete_def Let_def remove_child_absent)
  from del par' nf' absent listing subtree again
  show "\<exists>fs'. delete fs p = (Inr (), fs') \<and>
         (\<exists>parent'. traverse fs' ?bl = Some parent' \<and> \<not> is_file parent' \<and>
            ?k \<notin> set (map fst (children parent'))) \<and>
         (\<forall>q. path_parts q = ?bl \<longrightarrow>
            (\<exists>names. list_directory fs' q = Inr names \<and> ?k \<notin> set names)) \<and>
         (\<forall>rest. traverse fs' (path_parts p @ rest) = None) \<and>
         delete fs' p = (Inl (ChildNotFound ?k), fs')"
    by blast
qed

theorem delete_removes_witness:
  "traverse scenario_tree (path_parts ''dir/subdir'') =
     Some (FileSystemNode ''subdir'' False [(''file1.txt'', FileSystemNode ''file1.txt'' True [] [])] []) \<and>
   delete scenario_tree ''dir/subdir'' = (Inr (), after_delete) \<and>
   list_directory after_delete ''dir'' = Inr [''file3.txt''] \<and>
   traverse after_delete (path_parts ''dir/subdir'' @ [''file1.txt'']) = None \<and>
   delete after_delete ''dir/subdir'' = (Inl (ChildNotFound ''subdir''), after_delete) \<and>
   traverse scenario_tree (butlast (path_parts ''nodir/x'')) = None \<and>
   delete scenario_tree ''nodir/x'' = (Inl PathNotFound, scenario_tree)"
proof -
  have h1: "traverse scenario_tree (path_parts ''dir/subdir'') =
     Some (FileSystemNode ''subdir'' False [(''file1.txt'', FileSystemNode ''file1.txt'' True [] [])] [])"
    by (simp add: scenario_tree_def eval_defs)
  have h2: "traverse scenario_tree (butlast (path_parts ''nodir/x'')) = None"
    by (simp add: scenario_tree_def eval_defs)
  have d: "delete scenario_tree ''dir/subdir'' = (Inr (), after_delete)"
    by (simp add: scenario_tree_def after_delete_def eval_defs)
  have q: "path_parts ''dir'' = butlast (path_parts ''dir/subdir'')"
    by (simp add: eval_defs)
  have l: "list_directory after_delete ''dir'' = Inr [''file3.txt'']"
    by (simp add: after_delete_def eval_defs)
  from delete_removes [where fs = scenario_tree and p = "''dir/subdir''"] h1 d
  have "(\<forall>rest. traverse after_delete (path_parts ''dir/subdir'' @ rest) = None) \<and>
        delete after_delete ''dir/subdir'' = (Inl (ChildNotFound (last (path_parts ''dir/subdir''))), after_delete)"
    by auto
  moreover have "last (path_parts ''dir/subdir'') = ''subdir''" by (simp add: eval_defs)
  moreover from delete_removes [where fs = scenario_tree and p = "''nodir/x''"] h2
  have "delete scenario_tree ''nodir/x'' = (Inl PathNotFound, scenario_tree)" by blast
  ultimately show ?thesis using h1 h2 d l by simp
qed


section \<open>Files have no children\<close>

lemma files_are_leaves_Node [simp]:
  "files_are_leaves (FileSystemNode n f ch ps) = ((f \<longrightarrow> ch = []) \<and> files_are_leaves_list ch)"
  by (cases f) auto

lemma files_are_leaves_iff:
  "files_are_leaves c \<longleftrightarrow> (is_file c \<longrightarrow> children c = []) \<and> files_are_leaves_list (children c)"
proof (cases c)
  case (FileSystemNode n f ch ps)
  then show ?thesis by (cases f) auto
qed

lemma files_are_leaves_list_update:
  "files_are_leaves_list ch \<Longrightarrow> files_are_leaves v \<Longrightarrow>
   files_are_leaves_list (AList.update k v ch)"
  by (induction ch) auto

lemma files_are_leaves_list_delete:
  "files_are_leaves_list ch \<Longrightarrow> files_are_leaves_list (AList.delete k ch)"
  by (induction ch) auto

lemma files_are_leaves_list_map_of:
  "files_are_leaves_list ch \<Longrightarrow> map_of ch k = Some d \<Longrightarrow> files_are_leaves d"
  by (induction ch) (auto split: if_splits)

lemma files_are_leaves_get_child:
  "files_are_leaves c \<Longrightarrow> get_child c k = Some d \<Longrightarrow> files_are_leaves d \<and> \<not> is_file c"
  by (auto simp: files_are_leaves_iff [of c] get_child_def dest: files_are_leaves_list_map_of)

lemma files_are_leaves_store_child:
  "files_are_leaves c \<Longrightarrow> \<not> is_file c \<Longrightarrow> files_are_leaves v \<Longrightarrow>
   files_are_leaves (store_child c k v)"
  by (simp add: files_are_leaves_iff [of c] files_are_leaves_iff [of "store_child c k v"]
      files_are_leaves_list_update)

lemma files_are_leaves_traverse:
  "files_are_leaves c \<Longrightarrow> traverse_from (Some c) path = Some n \<Longrightarrow> files_are_leaves n"
proof (induction path arbitrary: c)
  case Nil
  then show ?case by simp
next
  case (Cons q qs)
  from Cons.prems(2) obtain d where d: "get_child c q = Some d"
    and tr: "traverse_from (Some d) qs = Some n"
    by (cases "get_child c q") (simp_all split: if_splits)
  from Cons.prems(1) d have "files_are_leaves d" by (simp add: files_are_leaves_get_child)
  from Cons.IH [OF this tr] show ?case .
qed

lemma files_are_leaves_replace_at:
  "files_are_leaves c \<Longrightarrow> files_are_leaves n \<Longrightarrow> files_are_leaves (replace_at c path n)"
proof (induction path arbitrary: c)
  case Nil
  then show ?case by simp
next
  case (Cons q qs)
  show ?case
  proof (cases "get_child c q")
    case None
    with Cons.prems show ?thesis by simp
  next
    case (Some d)
    with Cons.prems(1) have "files_are_leaves d" "\<not> is_file c"
      by (simp_all add: files_are_leaves_get_child)
    with Cons.IH [of d] Cons.prems Some show ?thesis
      by (simp add: files_are_leaves_store_child)
  qed
qed

lemma files_are_leaves_create_loop:
  "files_are_leaves c \<Longrightarrow> files_are_leaves (snd (create_loop c parts isf path))"
proof (induction parts arbitrary: c)
  case Nil
  then show ?case by simp
next
  case (Cons q qs)
  show ?case
  proof (cases "is_file c")
    case True
    with Cons.prems show ?thesis by simp
  next
    case nf: False
    show ?thesis
    proof (cases "get_child c q")
      case (Some d)
      obtain r d' where rc: "create_loop d qs isf path = (r, d')"
        by (cases "create_loop d qs isf path")
      from Cons.prems Some have "files_are_leaves d" by (simp add: files_are_leaves_get_child)
      from Cons.IH [OF this] rc have "files_are_leaves d'" by simp
      with Cons.prems nf have "files_are_leaves (store_child c q d')"
        by (simp add: files_are_leaves_store_child)
      with nf Some rc show ?thesis
        by (simp add: create_loop_Cons_Some del: create_loop.simps)
    next
      case None
      let ?new = "FileSystemNode q (if qs = [] then isf else False) [] []"
      obtain r d' where rc: "create_loop ?new qs isf path = (r, d')"
        by (cases "create_loop ?new qs isf path")
      have "files_are_leaves ?new" by simp
      from Cons.IH [OF this] rc have "files_are_leaves d'" by simp
      with Cons.prems nf have "files_are_leaves (store_child c q d')"
        by (simp add: files_are_leaves_store_child)
      with nf None rc show ?thesis
        by (simp add: create_loop_Cons_None del: create_loop.simps)
    qed
  qed
qed

lemma files_are_leaves_create:
  assumes "files_are_leaves (root fs)"
  shows "files_are_leaves (root (snd (create fs p X)))"
proof -
  obtain r root' where rc: "create_loop (root fs) (path_parts p) X p = (r, root')"
    by (cases "create_loop (root fs) (path_parts p) X p")
  with files_are_leaves_create_loop [OF assms, of "path_parts p" X p]
  show ?thesis by (simp add: create_def)
qed

lemma files_are_leaves_remove_child:
  "files_are_leaves self \<Longrightarrow> remove_child self k = Inr self' \<Longrightarrow> files_are_leaves self'"
  by (auto simp: remove_child_def files_are_leaves_iff [of self] files_are_leaves_iff [of self']
      files_are_leaves_list_delete split: if_splits)

lemma files_are_leaves_add_child:
  "files_are_leaves self \<Longrightarrow> files_are_leaves child \<Longrightarrow> add_child self child = Inr self' \<Longrightarrow>
   files_are_leaves self'"
  by (auto simp: add_child_def files_are_leaves_iff [of self] files_are_leaves_iff [of self']
      files_are_leaves_list_update split: if_splits)

lemma files_are_leaves_node_set_permissions:
  "files_are_leaves self \<Longrightarrow> files_are_leaves (node_set_permissions self user perm)"
  by (simp add: files_are_leaves_iff [of self]
      files_are_leaves_iff [of "node_set_permissions self user perm"]
      node_set_permissions_def with_permissions_def)

lemma files_are_leaves_delete:
  assumes "files_are_leaves (root fs)"
  shows "files_are_leaves (root (snd (delete fs p)))"
proof (cases "traverse fs (butlast (path_parts p))")
  case None
  with assms show ?thesis by (simp add: delete_def Let_def)
next
  case (Some parent)
  with assms have par: "files_are_leaves parent"
    by (auto simp: traverse_def dest: files_are_leaves_traverse)
  show ?thesis
  proof (cases "remove_child parent (last (path_parts p))")
    case (Inl e)
    with Some assms show ?thesis by (simp add: delete_def Let_def)
  next
    case (Inr parent')
    with par have "files_are_leaves parent'" by (rule files_are_leaves_remove_child)
    with assms Some Inr show ?thesis
      by (simp add: delete_def Let_def files_are_leaves_replace_at)
  qed
qed

lemma files_are_leaves_set_permissions:
  assumes "files_are_leaves (root fs)"
  shows "files_are_leaves (root (snd (set_permissions fs p user perm)))"
proof (cases "traverse fs (path_parts p)")
  case None
  with assms show ?thesis by (simp add: set_permissions_def Let_def)
next
  case (Some node)
  with assms have "files_are_leaves node"
    by (auto simp: traverse_def dest: files_are_leaves_traverse)
  then have "files_are_leaves (node_set_permissions node user perm)"
    by (rule files_are_leaves_node_set_permissions)
  with assms Some show ?thesis
    by (simp add: set_permissions_def Let_def files_are_leaves_replace_at)
qed

lemma create_loop_below_file:
  "traverse_from (Some c) xs = Some f \<Longrightarrow> is_file f \<Longrightarrow>
   create_loop c (xs @ y # ys) isf path = (Inl (CannotCreateInsideFile (name f)), c)"
proof (induction xs arbitrary: c)
  case Nil
  then show ?case by simp
next
  case (Cons q qs)
  from Cons.prems have nf: "\<not> is_file c" by (simp split: if_splits)
  with Cons.prems obtain d where d: "get_child c q = Some d"
    and tr: "traverse_from (Some d) qs = Some f"
    by (cases "get_child c q") simp_all
  from Cons.IH [OF tr Cons.prems(2)] nf d show ?case by (simp add: store_child_same)
qed

text \<open>
  C9. A node that is a file has no children, and this holds at every depth of the tree of a
  new file system and is kept by every operation that changes a tree or a node:
  \<^verbatim>\<open>create\<close>, \<^verbatim>\<open>delete\<close>, \<^verbatim>\<open>set_permissions\<close>, \<^verbatim>\<open>add_child\<close>, \<^verbatim>\<open>remove_child\<close> and
  the node's \<^verbatim>\<open>set_permissions\<close>, whether they return normally or raise.
  (\<^verbatim>\<open>list_directory\<close>, \<^verbatim>\<open>search\<close> and \<^verbatim>\<open>get_permissions\<close> assign to nothing, so they are
  functions of the tree alone.) Adding a child to a file raises "Cannot add child to a
  file: ..." and yields no changed node, and \<^verbatim>\<open>create\<close> of a path that runs through a file
  raises "Cannot create path inside a file: ..." and leaves the tree as it was.
\<close>

theorem files_stay_leaves:
  "files_are_leaves (root FileSystem_init) \<and>
   (files_are_leaves (root fs) \<longrightarrow>
      files_are_leaves (root (snd (create fs p X))) \<and>
      files_are_leaves (root (snd (delete fs p))) \<and>
      files_are_leaves (root (snd (set_permissions fs p user perm)))) \<and>
   (files_are_leaves self \<and> files_are_leaves child \<longrightarrow>
      (case add_child self child of Inl e \<Rightarrow> True | Inr self' \<Rightarrow> files_are_leaves self')) \<and>
   (files_are_leaves self \<longrightarrow>
      (case remove_child self k of Inl e \<Rightarrow> True | Inr self' \<Rightarrow> files_are_leaves self') \<and>
      files_are_leaves (node_set_permissions self user perm)) \<and>
   (is_file self \<longrightarrow> add_child self child = Inl (CannotAddChildToFile (name self))) \<and>
   (traverse fs (take i (path_parts p)) = Some f \<and> is_file f \<and> i < length (path_parts p) \<longrightarrow>
      create fs p X = (Inl (CannotCreateInsideFile (name f)), fs))"
proof (intro conjI impI)
  show "files_are_leaves (root FileSystem_init)" by (simp add: FileSystem_init_def)
next
  assume "files_are_leaves (root fs)"
  then show "files_are_leaves (root (snd (create fs p X)))" by (rule files_are_leaves_create)
next
  assume "files_are_leaves (root fs)"
  then show "files_are_leaves (root (snd (delete fs p)))" by (rule files_are_leaves_delete)
next
  assume "files_are_leaves (root fs)"
  then show "files_are_leaves (root (snd (set_permissions fs p user perm)))"
    by (rule files_are_leaves_set_permissions)
next
  assume "files_are_leaves self \<and> files_are_leaves child"
  then show "case add_child self child of Inl e \<Rightarrow> True | Inr self' \<Rightarrow> files_are_leaves self'"
    by (auto split: sum.splits dest: files_are_leaves_add_child)
next
  assume "files_are_leaves self"
  then show "case remove_child self k of Inl e \<Rightarrow> True | Inr self' \<Rightarrow> files_are_leaves self'"
    by (auto split: sum.splits dest: files_are_leaves_remove_child)
next
  assume "files_are_leaves self"
  then show "files_are_leaves (node_set_permissions self user perm)"
    by (rule files_are_leaves_node_set_permissions)
next
  assume "is_file self"
  then show "add_child self child = Inl (CannotAddChildToFile (name self))"
    by (simp add: add_child_def)
next
  let ?ps = "path_parts p"
  assume a: "traverse fs (take i ?ps) = Some f \<and> is_file f \<and> i < length ?ps"
  then have split: "?ps = take i ?ps @ ?ps ! i # drop (Suc i) ?ps"
    by (simp add: id_take_nth_drop)
  from a have "create_loop (root fs) (take i ?ps @ ?ps ! i # drop (Suc i) ?ps) X p =
               (Inl (CannotCreateInsideFile (name f)), root fs)"
    by (intro create_loop_below_file) (simp_all add: traverse_def)
  with split have "create_loop (root fs) ?ps X p = (Inl (CannotCreateInsideFile (name f)), root fs)"
    by simp
  then show "create fs p X = (Inl (CannotCreateInsideFile (name f)), fs)"
    by (simp add: create_def)
qed


theorem files_stay_leaves_witness:
  "files_are_leaves (root scenario_tree) \<and>
   files_are_leaves (root (snd (create scenario_tree ''dir/a/b'' True))) \<and>
   files_are_leaves (root (snd (delete scenario_tree ''dir/subdir''))) \<and>
   files_are_leaves (root (snd (set_permissions scenario_tree ''dir/file3.txt'' ''user1'' ''rwx''))) \<and>
   files_are_leaves (FileSystemNode ''d'' False [] []) \<and>
   files_are_leaves (FileSystemNode ''c'' True [] []) \<and>
   add_child (FileSystemNode ''d'' False [] []) (FileSystemNode ''c'' True [] []) =
     Inr (FileSystemNode ''d'' False [(''c'', FileSystemNode ''c'' True [] [])] []) \<and>
   files_are_leaves (FileSystemNode ''d'' False [(''c'', FileSystemNode ''c'' True [] [])] []) \<and>
   remove_child (FileSystemNode ''d'' False [(''c'', FileSystemNode ''c'' True [] [])] []) ''c'' =
     Inr (FileSystemNode ''d'' False [] []) \<and>
   files_are_leaves (node_set_permissions (FileSystemNode ''d'' False [] []) ''user1'' ''rwx'') \<and>
   is_file (FileSystemNode ''c'' True [] []) \<and>
   add_child (FileSystemNode ''c'' True [] []) (FileSystemNode ''d'' False [] []) =
     Inl (CannotAddChildToFile ''c'') \<and>
   traverse scenario_tree (take 2 (path_parts ''dir/file3.txt/x'')) =
     Some (FileSystemNode ''file3.txt'' True [] []) \<and>
   create scenario_tree ''dir/file3.txt/x'' False =
     (Inl (CannotCreateInsideFile ''file3.txt''), scenario_tree)"
proof -
  let ?d = "FileSystemNode ''d'' False [] []" and ?c = "FileSystemNode ''c'' True [] []"
  let ?dc = "FileSystemNode ''d'' False [(''c'', ?c)] []"
  have h1: "files_are_leaves (root scenario_tree)" by (simp add: scenario_tree_def)
  have h2: "files_are_leaves ?d \<and> files_are_leaves ?c" by simp
  have h3: "files_are_leaves ?dc" by simp
  have h4: "is_file ?c" by simp
  let ?f = "FileSystemNode ''file3.txt'' True [] []"
  have h5: "traverse scenario_tree (take 2 (path_parts ''dir/file3.txt/x'')) = Some ?f \<and>
            is_file ?f \<and> 2 < length (path_parts ''dir/file3.txt/x'')"
    by (simp add: scenario_tree_def eval_defs)
  have a: "add_child ?d ?c = Inr ?dc" by (simp add: eval_defs)
  have r: "remove_child ?dc ''c'' = Inr ?d" by (simp add: eval_defs)
  note t = files_stay_leaves [where fs = scenario_tree and self = ?d and child = ?c
      and f = ?f and i = 2 and p = "''dir/file3.txt/x''"]
  note t1 = files_stay_leaves [where fs = scenario_tree and p = "''dir/a/b''" and X = True]
  note t2 = files_stay_leaves [where fs = scenario_tree and p = "''dir/subdir''"]
  note t3 = files_stay_leaves [where fs = scenario_tree and p = "''dir/file3.txt''"
      and user = "''user1''" and perm = "''rwx''"]
  note t4 = files_stay_leaves [where self = ?c and child = ?d]
  note t5 = files_stay_leaves [where self = ?d and user = "''user1''" and perm = "''rwx''"]
  from t1 h1 have "files_are_leaves (root (snd (create scenario_tree ''dir/a/b'' True)))" by blast
  moreover from t2 h1 have "files_are_leaves (root (snd (delete scenario_tree ''dir/subdir'')))"
    by blast
  moreover from t3 h1
  have "files_are_leaves (root (snd (set_permissions scenario_tree ''dir/file3.txt'' ''user1'' ''rwx'')))"
    by blast
  moreover from t4 h4 have "add_child ?c ?d = Inl (CannotAddChildToFile ''c'')" by simp
  moreover from t5 h2 have "files_are_leaves (node_set_permissions ?d ''user1'' ''rwx'')" by blast
  moreover from t h5
  have "create scenario_tree ''dir/file3.txt/x'' False =
        (Inl (CannotCreateInsideFile ''file3.txt''), scenario_tree)" by simp
  ultimately show ?thesis using h1 h2 h3 h4 h5 a r by simp
qed


section \<open>Permissions\<close>

lemma keys_update_present:
  "map_of ch k = Some d \<Longrightarrow> map fst (AList.update k v ch) = map fst ch"
  by (simp add: update_keys weak_map_of_SomeI) (metis domI dom_map_of_conv_image_fst)

lemma traverse_from_same_shape:
  "is_file n' = is_file n \<Longrightarrow> children n' = children n \<Longrightarrow>
   traverse_from (Some n') (k # ks) = traverse_from (Some n) (k # ks)"
  by (simp add: get_child_def)

lemma replace_at_frame:
  assumes "traverse_from (Some c) path = Some n"
    and "name n' = name n" and "is_file n' = is_file n" and "children n' = children n"
  shows "case traverse_from (Some c) q of
           None \<Rightarrow> traverse_from (Some (replace_at c path n')) q = None
         | Some m \<Rightarrow>
             (\<exists>m'. traverse_from (Some (replace_at c path n')) q = Some m' \<and>
                name m' = name m \<and> is_file m' = is_file m \<and>
                map fst (children m') = map fst (children m) \<and>
                (q \<noteq> path \<longrightarrow> permissions m' = permissions m) \<and>
                (q = path \<longrightarrow> m' = n'))"
  using assms(1)
proof (induction path arbitrary: c q)
  case Nil
  then have c: "c = n" by simp
  show ?case
  proof (cases q)
    case Nil
    with c assms(2-4) show ?thesis by simp
  next
    case (Cons k ks)
    with c traverse_from_same_shape [OF assms(3,4), of k ks] show ?thesis
      by (simp split: option.splits del: traverse_from.simps)
  qed
next
  case (Cons a as)
  from Cons.prems have nf: "\<not> is_file c" by (simp split: if_splits)
  with Cons.prems obtain d where d: "get_child c a = Some d"
    and tr: "traverse_from (Some d) as = Some n"
    by (cases "get_child c a") simp_all
  let ?d' = "replace_at d as n'"
  have rep: "replace_at c (a # as) n' = store_child c a ?d'" using d by simp
  show ?case
  proof (cases q)
    case Nil
    with d show ?thesis
      by (simp add: rep get_child_def keys_update_present del: replace_at.simps)
  next
    case (Cons k ks)
    show ?thesis
    proof (cases "k = a")
      case True
      from Cons.IH [OF tr, of ks] Cons True nf d show ?thesis
        by (simp add: rep split: option.splits del: replace_at.simps)
    next
      case False
      with Cons nf show ?thesis
        by (simp add: rep split: option.splits del: replace_at.simps)
    qed
  qed
qed


text \<open>
  C10. When \<^verbatim>\<open>set_permissions(path, user, perm)\<close> returns normally, the same key paths
  resolve before and after, and the node at every key path keeps its name, its \<open>is_file\<close>
  flag and the keys of its children; every node other than the one \<open>path\<close> resolves to
  keeps its permissions; the resolved node's permissions are the old ones with the entry
  for \<open>user\<close> set to \<open>perm\<close>, so every other user's entry reads as before.
\<close>

theorem set_permissions_frame:
  assumes "set_permissions fs p user perm = (Inr (), fs')"
  shows "case traverse fs q of
           None \<Rightarrow> traverse fs' q = None
         | Some m \<Rightarrow>
             (\<exists>m'. traverse fs' q = Some m' \<and>
                name m' = name m \<and> is_file m' = is_file m \<and>
                map fst (children m') = map fst (children m) \<and>
                (q \<noteq> path_parts p \<longrightarrow> permissions m' = permissions m) \<and>
                (q = path_parts p \<longrightarrow>
                   permissions m' = AList.update user perm (permissions m) \<and>
                   node_get_permissions m' user = Some perm \<and>
                   (\<forall>u. u \<noteq> user \<longrightarrow> node_get_permissions m' u = node_get_permissions m u)))"
proof -
  from assms obtain node where node: "traverse fs (path_parts p) = Some node"
    and fs': "fs' = fs\<lparr>root := replace_at (root fs) (path_parts p) (node_set_permissions node user perm)\<rparr>"
    by (cases "traverse fs (path_parts p)") (simp_all add: set_permissions_def Let_def)
  let ?n' = "node_set_permissions node user perm"
  have n': "name ?n' = name node" "is_file ?n' = is_file node" "children ?n' = children node"
    "permissions ?n' = AList.update user perm (permissions node)"
    by (simp_all add: node_set_permissions_def with_permissions_def)
  have get: "node_get_permissions ?n' u = (if u = user then Some perm else node_get_permissions node u)" for u
    by (simp add: node_get_permissions_def n' update_conv')
  from node have "traverse_from (Some (root fs)) (path_parts p) = Some node"
    by (simp add: traverse_def)
  from replace_at_frame [OF this n'(1-3), of q] node n'(4) get show ?thesis
    by (auto simp: traverse_def fs' split: option.splits)
qed

theorem set_permissions_frame_witness:
  "set_permissions scenario_tree ''dir/subdir/file1.txt'' ''user1'' ''rwx'' =
     (Inr (), after_set_permissions) \<and>
   (\<exists>m'. traverse after_set_permissions (path_parts ''dir/subdir/file1.txt'') = Some m' \<and>
      name m' = ''file1.txt'' \<and> is_file m' \<and> children m' = [] \<and>
      permissions m' = [(''user1'', ''rwx'')] \<and>
      node_get_permissions m' ''user1'' = Some ''rwx'' \<and>
      node_get_permissions m' ''user2'' = None) \<and>
   (\<exists>m'. traverse after_set_permissions [''dir''] = Some m' \<and>
      name m' = ''dir'' \<and> \<not> is_file m' \<and>
      map fst (children m') = [''subdir'', ''file3.txt''] \<and> permissions m' = []) \<and>
   traverse after_set_permissions [''nodir''] = None"
proof -
  have h: "set_permissions scenario_tree ''dir/subdir/file1.txt'' ''user1'' ''rwx'' =
     (Inr (), after_set_permissions)"
    by (simp add: scenario_tree_def after_set_permissions_def eval_defs)
  have t1: "traverse scenario_tree (path_parts ''dir/subdir/file1.txt'') =
            Some (FileSystemNode ''file1.txt'' True [] [])"
    by (simp add: scenario_tree_def eval_defs)
  have t2: "traverse scenario_tree [''dir''] =
            Some (FileSystemNode ''dir'' False
              [(''subdir'', FileSystemNode ''subdir'' False
                  [(''file1.txt'', FileSystemNode ''file1.txt'' True [] [])] []),
               (''file3.txt'', FileSystemNode ''file3.txt'' True [] [])] [])"
    by (simp add: scenario_tree_def eval_defs)
  have t3: "traverse scenario_tree [''nodir''] = None"
    by (simp add: scenario_tree_def eval_defs)
  have ne: "[''dir''] \<noteq> path_parts ''dir/subdir/file1.txt''"
    by (simp add: eval_defs)
  from set_permissions_frame [OF h, of "path_parts ''dir/subdir/file1.txt''"] t1
  have "\<exists>m'. traverse after_set_permissions (path_parts ''dir/subdir/file1.txt'') = Some m' \<and>
      name m' = ''file1.txt'' \<and> is_file m' \<and> children m' = [] \<and>
      permissions m' = [(''user1'', ''rwx'')] \<and>
      node_get_permissions m' ''user1'' = Some ''rwx'' \<and>
      node_get_permissions m' ''user2'' = None"
    by (auto simp: node_get_permissions_def)
  moreover from set_permissions_frame [OF h, of "[''dir'']"] t2 ne
  have "\<exists>m'. traverse after_set_permissions [''dir''] = Some m' \<and>
      name m' = ''dir'' \<and> \<not> is_file m' \<and>
      map fst (children m') = [''subdir'', ''file3.txt''] \<and> permissions m' = []"
    by auto
  moreover from set_permissions_frame [OF h, of "[''nodir'']"] t3
  have "traverse after_set_permissions [''nodir''] = None" by simp
  ultimately show ?thesis using h by blast
qed


section \<open>Search\<close>

lemma str_strip_id:
  assumes "s \<noteq> []" "hd s \<noteq> c" "last s \<noteq> c"
  shows "str_strip c s = s"
proof -
  from assms have "dropWhile (\<lambda>x. x = c) s = s" by (cases s) simp_all
  moreover from assms have "dropWhile (\<lambda>x. x = c) (rev s) = rev s"
    by (cases "rev s") (simp_all add: hd_rev)
  ultimately show ?thesis by (simp add: str_strip_def)
qed

lemma str_strip_leading [simp]: "str_strip c (c # s) = str_strip c s"
  by (simp add: str_strip_def)

lemma str_join_snoc:
  "segs \<noteq> [] \<Longrightarrow> str_join sep (segs @ [k]) = str_join sep segs @ sep @ k"
  by (induction sep segs rule: str_join.induct) simp_all

lemma str_join_nonempty:
  "segs \<noteq> [] \<Longrightarrow> hd segs \<noteq> [] \<Longrightarrow>
   str_join sep segs \<noteq> [] \<and> hd (str_join sep segs) = hd (hd segs)"
  by (induction sep segs rule: str_join.induct) simp_all

lemma hd_last_not_sep:
  "k \<noteq> [] \<Longrightarrow> c \<notin> set k \<Longrightarrow> hd k \<noteq> c \<and> last k \<noteq> c"
  by (induction k) auto

lemma strip_child_path:
  assumes segs: "\<forall>s \<in> set segs. s \<noteq> [] \<and> CHR ''/'' \<notin> set s"
    and k: "k \<noteq> []" "CHR ''/'' \<notin> set k"
  shows "str_strip CHR ''/'' (str_join ''/'' segs @ ''/'' @ k) = str_join ''/'' (segs @ [k])"
proof -
  from k have hk: "hd k \<noteq> CHR ''/''" and lk: "last k \<noteq> CHR ''/''"
    by (simp_all add: hd_last_not_sep)
  show ?thesis
  proof (cases "segs = []")
    case True
    with k hk lk show ?thesis by (simp add: str_strip_id)
  next
    case False
    with segs have h: "hd segs \<noteq> []" "CHR ''/'' \<notin> set (hd segs)" by simp_all
    let ?s = "str_join ''/'' segs @ ''/'' @ k"
    from False h str_join_nonempty [of segs "''/''"]
    have ne: "str_join ''/'' segs \<noteq> []" and hd: "hd (str_join ''/'' segs) = hd (hd segs)"
      by simp_all
    from h have "hd (hd segs) \<noteq> CHR ''/''" by (simp add: hd_last_not_sep)
    with ne hd have 1: "hd ?s \<noteq> CHR ''/''" by simp
    from k lk have 2: "last ?s \<noteq> CHR ''/''" by simp
    have "str_strip CHR ''/'' ?s = ?s" using 1 2 by (intro str_strip_id) simp_all
    with False show ?thesis by (simp add: str_join_snoc)
  qed
qed

lemma search_paths:
  "keys_ok c \<Longrightarrow> (\<forall>s \<in> set segs. s \<noteq> [] \<and> CHR ''/'' \<notin> set s) \<Longrightarrow>
     search_node nm c (str_join ''/'' segs) =
       map (\<lambda>(ks, n). show_path ks) (filter (\<lambda>(ks, n). name n = nm) (node_paths segs c))"
  "keys_ok_list ch \<Longrightarrow> (\<forall>s \<in> set segs. s \<noteq> [] \<and> CHR ''/'' \<notin> set s) \<Longrightarrow>
     search_children nm ch (str_join ''/'' segs) =
       map (\<lambda>(ks, n). show_path ks) (filter (\<lambda>(ks, n). name n = nm) (children_paths segs ch))"
proof (induction segs c and segs ch rule: node_paths_children_paths.induct)
  case (1 segs n f ch ps)
  have "str_join ''/'' segs = [] \<longleftrightarrow> segs = []"
    using 1(3) str_join_nonempty [of segs "''/''"] by (cases segs) auto
  with 1 show ?case by (simp add: show_path_def)
next
  case (2 segs)
  show ?case by simp
next
  case (3 segs k c rest)
  from 3(3) have k: "k \<noteq> []" "CHR ''/'' \<notin> set k" and c: "keys_ok c" and r: "keys_ok_list rest"
    by simp_all
  from 3(4) k have segs': "\<forall>s \<in> set (segs @ [k]). s \<noteq> [] \<and> CHR ''/'' \<notin> set s" by simp
  from 3(1) [OF c segs'] 3(2) [OF r 3(4)] strip_child_path [OF 3(4) k]
  show ?case by simp
qed

text \<open>
  C1. The claim is that \<^verbatim>\<open>search\<close> returns root-relative paths with a leading
  separator, \<^verbatim>\<open>"/dir/subdir/file1.txt"\<close> in the scenario. The program strips the
  separators from both ends of every path it hands down, so the scenario's answer has no
  leading separator.
\<close>

theorem search_leading_slash_counterexample:
  "search scenario_fs ''file1.txt'' \<noteq> [''/dir/subdir/file1.txt'']"
  by (simp add: scenario_fs_eq scenario_tree_def search_def str_strip_def)

text \<open>
  C1, as the program has it: in a tree whose children keys are proper segments (not empty,
  no separator), \<^verbatim>\<open>search(name)\<close> returns, in depth-first preorder with only directories
  entered, one path for every node whose name is the queried one: \<^verbatim>\<open>"/"\<close> for the root
  and, for any other node, the keys that lead to it joined by \<^verbatim>\<open>/\<close> with no leading
  separator. In the scenario tree \<^verbatim>\<open>search("file1.txt")\<close> is \<^verbatim>\<open>["dir/subdir/file1.txt"]\<close>.
\<close>

theorem search_lists_key_paths:
  "(keys_ok (root fs) \<longrightarrow>
      search fs nm =
        map (\<lambda>(ks, n). show_path ks) (filter (\<lambda>(ks, n). name n = nm) (node_paths [] (root fs)))) \<and>
   search scenario_fs ''file1.txt'' = [''dir/subdir/file1.txt'']"
proof (intro conjI impI)
  assume "keys_ok (root fs)"
  from search_paths(1) [OF this, of "[]" nm] show "search fs nm =
        map (\<lambda>(ks, n). show_path ks) (filter (\<lambda>(ks, n). name n = nm) (node_paths [] (root fs)))"
    by (simp add: search_def)
next
  show "search scenario_fs ''file1.txt'' = [''dir/subdir/file1.txt'']"
    by (simp add: scenario_fs_eq scenario_tree_def search_def str_strip_def)
qed

theorem search_lists_key_paths_witness:
  "keys_ok (root scenario_tree) \<and>
   map (\<lambda>(ks, n). show_path ks)
     (filter (\<lambda>(ks, n). name n = ''file1.txt'') (node_paths [] (root scenario_tree))) =
     [''dir/subdir/file1.txt''] \<and>
   search scenario_tree ''file1.txt'' = [''dir/subdir/file1.txt''] \<and>
   map (\<lambda>(ks, n). show_path ks)
     (filter (\<lambda>(ks, n). name n = ''/'') (node_paths [] (root scenario_tree))) = [''/''] \<and>
   search scenario_tree ''/'' = [''/'']"
proof -
  have h: "keys_ok (root scenario_tree)" by (simp add: scenario_tree_def)
  have e1: "map (\<lambda>(ks, n). show_path ks)
     (filter (\<lambda>(ks, n). name n = ''file1.txt'') (node_paths [] (root scenario_tree))) =
     [''dir/subdir/file1.txt'']"
    by (simp add: scenario_tree_def show_path_def)
  have e2: "map (\<lambda>(ks, n). show_path ks)
     (filter (\<lambda>(ks, n). name n = ''/'') (node_paths [] (root scenario_tree))) = [''/'']"
    by (simp add: scenario_tree_def show_path_def)
  from search_lists_key_paths [of scenario_tree "''file1.txt''"] h e1
  have "search scenario_tree ''file1.txt'' = [''dir/subdir/file1.txt'']" by simp
  moreover from search_lists_key_paths [of scenario_tree "''/''"] h e2
  have "search scenario_tree ''/'' = [''/'']" by simp
  ultimately show ?thesis using h e1 e2 by simp
qed


end
